theory Spec2Isabelle
  imports Complex_Main "HOL-Library.Word"
begin

section \<open>Shared C types\<close>

text \<open>
  The status codes of \<^verbatim>\<open>sl_status.h\<close> that the two modules return.
\<close>

datatype sl_status_t =
  SL_STATUS_OK | SL_STATUS_FAIL | SL_STATUS_INVALID_PARAMETER | SL_STATUS_NOT_INITIALIZED

text \<open>
  A C \<^verbatim>\<open>float\<close>. The battery monitor stores floats and compares one of them with a
  constant; it does no arithmetic on them in the functions embedded here. A finite value is
  kept as the real number it denotes; the infinities and NaN are separate values, and every
  ordered comparison with NaN is false, as in C.
\<close>

datatype c_float = Finite real | PlusInf | MinusInf | NaN

fun float_gt :: "c_float \<Rightarrow> c_float \<Rightarrow> bool" where
  "float_gt NaN _ = False"
| "float_gt _ NaN = False"
| "float_gt (Finite a) (Finite b) = (b < a)"
| "float_gt (Finite _) PlusInf = False"
| "float_gt (Finite _) MinusInf = True"
| "float_gt PlusInf PlusInf = False"
| "float_gt PlusInf _ = True"
| "float_gt MinusInf _ = False"

section \<open>Battery monitor: \<^verbatim>\<open>battery_monitor.h\<close>, \<^verbatim>\<open>battery_monitor.c\<close>\<close>

subsection \<open>Data\<close>

abbreviation (input) BATTERY_LOW_THRESHOLD_PERCENT :: int where
  "BATTERY_LOW_THRESHOLD_PERCENT \<equiv> 20"

abbreviation (input) BATTERY_CRITICAL_THRESHOLD_PERCENT :: int where
  "BATTERY_CRITICAL_THRESHOLD_PERCENT \<equiv> 10"

abbreviation (input) BATTERY_FULL_THRESHOLD_PERCENT :: int where
  "BATTERY_FULL_THRESHOLD_PERCENT \<equiv> 95"

abbreviation (input) CHARGING_CURRENT_THRESHOLD_MA :: c_float where
  "CHARGING_CURRENT_THRESHOLD_MA \<equiv> Finite 50"

datatype battery_state_t =
  BATTERY_STATE_UNKNOWN
| BATTERY_STATE_NORMAL
| BATTERY_STATE_LOW
| BATTERY_STATE_CRITICAL
| BATTERY_STATE_CHARGING
| BATTERY_STATE_FULL

record battery_status_t =
  battery_percent :: "8 word"
  battery_voltage :: c_float
  charging_current_ma :: c_float
  state :: battery_state_t
  is_charging :: bool
  is_low_battery_warning_active :: bool

text \<open>
  The file-scope variables of \<^verbatim>\<open>battery_monitor.c\<close>. A function pointer and a timer id
  are kept as an optional identifier, \<open>None\<close> for \<^verbatim>\<open>NULL\<close>. The registered
  callback is code outside the module: what the module does with it is to call it, so the
  model records every call, with the callee and the three arguments, in
  \<open>callback_calls\<close>; the third argument is the status record the pointer refers to at
  the moment of the call.
\<close>

record battery_globals =
  g_battery_status :: battery_status_t
  g_state_callback :: "nat option"
  g_monitor_timer :: "nat option"
  g_monitor_active :: bool
  callback_calls :: "(nat \<times> battery_state_t \<times> battery_state_t \<times> battery_status_t) list"

text \<open>The static initialisers: \<^verbatim>\<open>{0}\<close>, \<^verbatim>\<open>NULL\<close>, \<^verbatim>\<open>false\<close>.\<close>

definition battery_globals_zero :: battery_globals where
  "battery_globals_zero =
     \<lparr> g_battery_status =
         \<lparr> battery_percent = 0, battery_voltage = Finite 0, charging_current_ma = Finite 0,
           state = BATTERY_STATE_UNKNOWN, is_charging = False,
           is_low_battery_warning_active = False \<rparr>,
       g_state_callback = None, g_monitor_timer = None, g_monitor_active = False,
       callback_calls = [] \<rparr>"

subsection \<open>Operations\<close>

text \<open>
  \<^verbatim>\<open>battery_monitor_init\<close>. The argument \<open>new_timer\<close> is what \<^verbatim>\<open>osTimerNew\<close>
  returns. The literal \<^verbatim>\<open>4.2f\<close> is written as the real 4.2; the stored voltage is never
  read by the module.
\<close>

definition battery_monitor_init :: "nat option \<Rightarrow> battery_globals \<Rightarrow> sl_status_t \<times> battery_globals" where
  "battery_monitor_init new_timer g =
     (let g1 = g\<lparr> g_battery_status := (g_battery_status g)
                    \<lparr> battery_percent := 100, battery_voltage := Finite 4.2,
                      charging_current_ma := Finite 0, state := BATTERY_STATE_NORMAL,
                      is_charging := False, is_low_battery_warning_active := False \<rparr> \<rparr>;
          g2 = g1\<lparr> g_monitor_timer := new_timer \<rparr>
      in if g_monitor_timer g2 = None then (SL_STATUS_FAIL, g2) else (SL_STATUS_OK, g2))"

definition battery_monitor_set_callback :: "nat option \<Rightarrow> battery_globals \<Rightarrow> sl_status_t \<times> battery_globals" where
  "battery_monitor_set_callback callback g = (SL_STATUS_OK, g\<lparr> g_state_callback := callback \<rparr>)"

definition battery_monitor_get_status :: "battery_globals \<Rightarrow> battery_status_t" where
  "battery_monitor_get_status g = g_battery_status g"

text \<open>
  \<^verbatim>\<open>battery_update_state\<close>. The \<^verbatim>\<open>uint8_t\<close> percentage is promoted to \<^verbatim>\<open>int\<close> for the
  comparisons, hence \<open>uint\<close>.
\<close>

definition battery_update_state :: "battery_globals \<Rightarrow> battery_globals" where
  "battery_update_state g =
     (let st = g_battery_status g;
          charging = float_gt (charging_current_ma st) CHARGING_CURRENT_THRESHOLD_MA;
          st1 = st\<lparr> is_charging := charging \<rparr>;
          new_state =
            (if charging then
               (if BATTERY_FULL_THRESHOLD_PERCENT \<le> uint (battery_percent st1)
                then BATTERY_STATE_FULL else BATTERY_STATE_CHARGING)
             else
               (if uint (battery_percent st1) \<le> BATTERY_CRITICAL_THRESHOLD_PERCENT
                then BATTERY_STATE_CRITICAL
                else if uint (battery_percent st1) \<le> BATTERY_LOW_THRESHOLD_PERCENT
                then BATTERY_STATE_LOW
                else BATTERY_STATE_NORMAL))
      in g\<lparr> g_battery_status := st1\<lparr> state := new_state \<rparr> \<rparr>)"

text \<open>
  \<^verbatim>\<open>battery_handle_state_change\<close>: the \<^verbatim>\<open>switch\<close> on the new state, then the call of
  the registered callback. Log output is not modelled.
\<close>

definition battery_handle_state_change ::
  "battery_state_t \<Rightarrow> battery_state_t \<Rightarrow> battery_globals \<Rightarrow> battery_globals" where
  "battery_handle_state_change old_state new_state g =
     (let st = g_battery_status g;
          st1 =
            (case new_state of
               BATTERY_STATE_LOW \<Rightarrow>
                 (if \<not> is_low_battery_warning_active st
                  then st\<lparr> is_low_battery_warning_active := True \<rparr> else st)
             | BATTERY_STATE_CRITICAL \<Rightarrow>
                 (if \<not> is_low_battery_warning_active st
                  then st\<lparr> is_low_battery_warning_active := True \<rparr> else st)
             | BATTERY_STATE_CHARGING \<Rightarrow>
                 (if is_low_battery_warning_active st
                  then st\<lparr> is_low_battery_warning_active := False \<rparr> else st)
             | BATTERY_STATE_FULL \<Rightarrow>
                 (if is_low_battery_warning_active st
                  then st\<lparr> is_low_battery_warning_active := False \<rparr> else st)
             | BATTERY_STATE_NORMAL \<Rightarrow>
                 (if is_low_battery_warning_active st
                  then st\<lparr> is_low_battery_warning_active := False \<rparr> else st)
             | BATTERY_STATE_UNKNOWN \<Rightarrow> st);
          g1 = g\<lparr> g_battery_status := st1 \<rparr>
      in case g_state_callback g1 of
           None \<Rightarrow> g1
         | Some cb \<Rightarrow>
             g1\<lparr> callback_calls := callback_calls g1 @ [(cb, old_state, new_state, g_battery_status g1)] \<rparr>)"

definition battery_monitor_force_update :: "battery_globals \<Rightarrow> battery_globals" where
  "battery_monitor_force_update g = battery_update_state g"

definition battery_monitor_update_values ::
  "8 word \<Rightarrow> c_float \<Rightarrow> c_float \<Rightarrow> battery_globals \<Rightarrow> battery_globals" where
  "battery_monitor_update_values percent voltage current_ma g =
     (let old_state = state (g_battery_status g);
          g1 = g\<lparr> g_battery_status := (g_battery_status g)
                    \<lparr> battery_percent := percent, battery_voltage := voltage,
                      charging_current_ma := current_ma \<rparr> \<rparr>;
          g2 = battery_update_state g1
      in if state (g_battery_status g2) \<noteq> old_state
         then battery_handle_state_change old_state (state (g_battery_status g2)) g2
         else g2)"

text \<open>The three simulation entry points, with their literal readings.\<close>

definition battery_monitor_simulate_low_battery :: "battery_globals \<Rightarrow> battery_globals" where
  "battery_monitor_simulate_low_battery g =
     battery_monitor_update_values 15 (Finite 3.2) (Finite 0) g"

definition battery_monitor_simulate_charging_start :: "battery_globals \<Rightarrow> battery_globals" where
  "battery_monitor_simulate_charging_start g =
     battery_monitor_update_values 30 (Finite 3.5) (Finite 500) g"

definition battery_monitor_simulate_charging_complete :: "battery_globals \<Rightarrow> battery_globals" where
  "battery_monitor_simulate_charging_complete g =
     battery_monitor_update_values 100 (Finite 4.2) (Finite 20) g"

text \<open>
  A caller's sequence of the two public operations that reclassify, applied left to right.
\<close>

datatype battery_call =
  Update_Values "8 word" c_float c_float
| Force_Update

fun battery_call_exec :: "battery_call \<Rightarrow> battery_globals \<Rightarrow> battery_globals" where
  "battery_call_exec (Update_Values p v c) g = battery_monitor_update_values p v c g"
| "battery_call_exec Force_Update g = battery_monitor_force_update g"

fun battery_calls_exec :: "battery_call list \<Rightarrow> battery_globals \<Rightarrow> battery_globals" where
  "battery_calls_exec [] g = g"
| "battery_calls_exec (c # cs) g = battery_calls_exec cs (battery_call_exec c g)"

text \<open>
  Two concrete states for the examples below: the variables as the program starts with them
  plus a registered callback (before \<^verbatim>\<open>battery_monitor_init\<close> has run), and the same
  after a successful \<^verbatim>\<open>battery_monitor_init\<close>.
\<close>

definition battery_globals_observed :: battery_globals where
  "battery_globals_observed = snd (battery_monitor_set_callback (Some 1) battery_globals_zero)"

definition battery_globals_started :: battery_globals where
  "battery_globals_started =
     snd (battery_monitor_set_callback (Some 1)
       (snd (battery_monitor_init (Some 1) battery_globals_zero)))"

text \<open>
  A state is \<open>classified\<close> when its stored state is the one that
  \<^verbatim>\<open>battery_update_state\<close> derives from its stored readings.
\<close>

definition classified :: "battery_globals \<Rightarrow> bool" where
  "classified g = (state (g_battery_status (battery_update_state g)) = state (g_battery_status g))"

section \<open>LED status indicator: \<^verbatim>\<open>led_status_indicator.h\<close>, \<^verbatim>\<open>led_status_indicator.c\<close>\<close>

subsection \<open>Data\<close>

text \<open>
  \<^verbatim>\<open>led_status_t\<close> is a C enumeration without negative enumerators: an unsigned integer
  that can hold values beyond the last enumerator, which is why \<^verbatim>\<open>led_status_set\<close>
  checks its argument.
\<close>

type_synonym led_status_t = "32 word"

abbreviation (input) LED_STATUS_POWER_ON :: led_status_t where "LED_STATUS_POWER_ON \<equiv> 0"
abbreviation (input) LED_STATUS_BLE_PAIRING :: led_status_t where "LED_STATUS_BLE_PAIRING \<equiv> 1"
abbreviation (input) LED_STATUS_BLE_PAIR_SUCCESS :: led_status_t where "LED_STATUS_BLE_PAIR_SUCCESS \<equiv> 2"
abbreviation (input) LED_STATUS_BLE_PAIR_FAIL :: led_status_t where "LED_STATUS_BLE_PAIR_FAIL \<equiv> 3"
abbreviation (input) LED_STATUS_FACTORY_RESET :: led_status_t where "LED_STATUS_FACTORY_RESET \<equiv> 4"
abbreviation (input) LED_STATUS_LOW_BATTERY :: led_status_t where "LED_STATUS_LOW_BATTERY \<equiv> 5"
abbreviation (input) LED_STATUS_OTA_UPDATE :: led_status_t where "LED_STATUS_OTA_UPDATE \<equiv> 6"
abbreviation (input) LED_STATUS_OTA_SUCCESS :: led_status_t where "LED_STATUS_OTA_SUCCESS \<equiv> 7"
abbreviation (input) LED_STATUS_OTA_FAIL :: led_status_t where "LED_STATUS_OTA_FAIL \<equiv> 8"
abbreviation (input) LED_STATUS_CHARGING :: led_status_t where "LED_STATUS_CHARGING \<equiv> 9"
abbreviation (input) LED_STATUS_CHARGE_COMPLETE :: led_status_t where "LED_STATUS_CHARGE_COMPLETE \<equiv> 10"
abbreviation (input) LED_STATUS_OFF :: led_status_t where "LED_STATUS_OFF \<equiv> 11"
abbreviation (input) LED_STATUS_MAX :: led_status_t where "LED_STATUS_MAX \<equiv> 12"

datatype led_pattern_state_t =
  LED_PATTERN_STATE_IDLE
| LED_PATTERN_STATE_ACTIVE
| LED_PATTERN_STATE_COMPLETE

record led_pattern_step_t =
  on_time_ms :: "16 word"
  off_time_ms :: "16 word"
  repeat_count :: "8 word"
  flash_count :: "8 word"

text \<open>
  \<open>steps\<close> is a pointer to an array: \<open>None\<close> is \<^verbatim>\<open>NULL\<close>, \<open>Some xs\<close> points to the
  array \<open>xs\<close>. \<open>step_count\<close> is a field of its own, as in the C structure.
\<close>

record led_pattern_config_t =
  steps :: "led_pattern_step_t list option"
  step_count :: "8 word"
  auto_stop :: bool
  auto_stop_delay_ms :: "16 word"

text \<open>
  The context structure, and with it the two things outside the module that its functions
  act on or read. A timer field holds the state of the one-shot timer the handle refers to:
  \<open>None\<close> when it is not running, \<open>Some d\<close> when it was started for \<open>d\<close> ticks and
  has neither expired nor been stopped. \<open>blue_led\<close> is the level that \<^verbatim>\<open>leds_play\<close> last
  set on the LED, \<open>kernel_tick\<close> what \<^verbatim>\<open>osKernelGetTickCount\<close> returns.
\<close>

record led_status_context_t =
  current_status :: led_status_t
  pattern_state :: led_pattern_state_t
  current_step :: "8 word"
  current_flash :: "8 word"
  repeat_counter :: "8 word"
  step_start_time :: "32 word"
  pattern_start_time :: "32 word"
  led_state :: bool
  timer_handle :: "32 word option"
  auto_stop_timer :: "32 word option"
  blue_led :: bool
  kernel_tick :: "32 word"

text \<open>
  Undefined behaviour of the C program that the functions below can run into: reading through
  a null pointer, and reading an array beyond its end.
\<close>

datatype fault = Null_Pointer_Read | Out_Of_Bounds_Read

subsection \<open>The pattern table\<close>

definition pattern_power_on :: "led_pattern_step_t list" where
  "pattern_power_on =
     [\<lparr> on_time_ms = 2000, off_time_ms = 0, repeat_count = 1, flash_count = 1 \<rparr>]"

definition pattern_ble_pairing :: "led_pattern_step_t list" where
  "pattern_ble_pairing =
     [\<lparr> on_time_ms = 200, off_time_ms = 800, repeat_count = 0, flash_count = 1 \<rparr>]"

definition pattern_ble_pair_success :: "led_pattern_step_t list" where
  "pattern_ble_pair_success =
     [\<lparr> on_time_ms = 2000, off_time_ms = 0, repeat_count = 1, flash_count = 1 \<rparr>]"

definition pattern_ble_pair_fail :: "led_pattern_step_t list" where
  "pattern_ble_pair_fail =
     [\<lparr> on_time_ms = 200, off_time_ms = 200, repeat_count = 1, flash_count = 2 \<rparr>,
      \<lparr> on_time_ms = 0, off_time_ms = 600, repeat_count = 1, flash_count = 1 \<rparr>,
      \<lparr> on_time_ms = 200, off_time_ms = 200, repeat_count = 0, flash_count = 2 \<rparr>]"

definition pattern_factory_reset :: "led_pattern_step_t list" where
  "pattern_factory_reset =
     [\<lparr> on_time_ms = 2000, off_time_ms = 0, repeat_count = 1, flash_count = 1 \<rparr>]"

definition pattern_ota_update :: "led_pattern_step_t list" where
  "pattern_ota_update =
     [\<lparr> on_time_ms = 200, off_time_ms = 2800, repeat_count = 0, flash_count = 1 \<rparr>]"

definition pattern_ota_fail :: "led_pattern_step_t list" where
  "pattern_ota_fail =
     [\<lparr> on_time_ms = 100, off_time_ms = 100, repeat_count = 1, flash_count = 3 \<rparr>,
      \<lparr> on_time_ms = 0, off_time_ms = 2700, repeat_count = 1, flash_count = 1 \<rparr>]"

definition pattern_off :: "led_pattern_step_t list" where
  "pattern_off =
     [\<lparr> on_time_ms = 0, off_time_ms = 0, repeat_count = 0, flash_count = 0 \<rparr>]"

text \<open>
  The array has \<^verbatim>\<open>LED_STATUS_MAX\<close> elements and nine designated initialisers. The elements
  for \<^verbatim>\<open>LED_STATUS_LOW_BATTERY\<close>, \<^verbatim>\<open>LED_STATUS_CHARGING\<close> and
  \<^verbatim>\<open>LED_STATUS_CHARGE_COMPLETE\<close> have none, so C initialises them with zeros: a null
  \<open>steps\<close> pointer and a \<open>step_count\<close> of 0.
\<close>

definition led_pattern_config_zero :: led_pattern_config_t where
  "led_pattern_config_zero =
     \<lparr> steps = None, step_count = 0, auto_stop = False, auto_stop_delay_ms = 0 \<rparr>"

definition led_patterns :: "led_pattern_config_t list" where
  "led_patterns =
     [\<lparr> steps = Some pattern_power_on, step_count = 1, auto_stop = True, auto_stop_delay_ms = 0 \<rparr>,
      \<lparr> steps = Some pattern_ble_pairing, step_count = 1, auto_stop = False, auto_stop_delay_ms = 0 \<rparr>,
      \<lparr> steps = Some pattern_ble_pair_success, step_count = 1, auto_stop = True, auto_stop_delay_ms = 0 \<rparr>,
      \<lparr> steps = Some pattern_ble_pair_fail, step_count = 3, auto_stop = False, auto_stop_delay_ms = 0 \<rparr>,
      \<lparr> steps = Some pattern_factory_reset, step_count = 1, auto_stop = True, auto_stop_delay_ms = 0 \<rparr>,
      led_pattern_config_zero,
      \<lparr> steps = Some pattern_ota_update, step_count = 1, auto_stop = False, auto_stop_delay_ms = 0 \<rparr>,
      \<lparr> steps = Some pattern_off, step_count = 1, auto_stop = True, auto_stop_delay_ms = 0 \<rparr>,
      \<lparr> steps = Some pattern_ota_fail, step_count = 2, auto_stop = False, auto_stop_delay_ms = 0 \<rparr>,
      led_pattern_config_zero,
      led_pattern_config_zero,
      \<lparr> steps = Some pattern_off, step_count = 1, auto_stop = True, auto_stop_delay_ms = 0 \<rparr>]"

text \<open>
  The two reads the sequencer makes: \<^verbatim>\<open>led_patterns[status]\<close> and
  \<^verbatim>\<open>config->steps[i]\<close>. The sequencer functions below take the table as an argument,
  so that their properties can be stated for every table; the program's table is
  \<open>led_patterns\<close>.
\<close>

definition pattern_of :: "led_pattern_config_t list \<Rightarrow> led_status_t \<Rightarrow> fault + led_pattern_config_t" where
  "pattern_of tbl status =
     (if unat status < length tbl then Inr (tbl ! unat status) else Inl Out_Of_Bounds_Read)"

definition step_of :: "led_pattern_config_t \<Rightarrow> 8 word \<Rightarrow> fault + led_pattern_step_t" where
  "step_of config i =
     (case steps config of
        None \<Rightarrow> Inl Null_Pointer_Read
      | Some xs \<Rightarrow> if unat i < length xs then Inr (xs ! unat i) else Inl Out_Of_Bounds_Read)"

subsection \<open>Operations\<close>

definition led_set_physical_state :: "bool \<Rightarrow> led_status_context_t \<Rightarrow> led_status_context_t" where
  "led_set_physical_state on ctx = ctx\<lparr> led_state := on, blue_led := on \<rparr>"

text \<open>
  \<^verbatim>\<open>led_start_next_step\<close> and \<^verbatim>\<open>led_process_current_step\<close> call each other, and the
  second calls itself when the next delay is zero. The first argument bounds the depth of
  these calls: \<open>None\<close> means that the bound was reached before the functions returned.
  \<open>Some (Inl f)\<close> is a run that ends in the undefined behaviour \<open>f\<close>, \<open>Some (Inr ctx)\<close>
  a return with the context \<open>ctx\<close>.
\<close>

fun led_start_next_step ::
    "nat \<Rightarrow> led_pattern_config_t list \<Rightarrow> led_status_context_t \<Rightarrow> (fault + led_status_context_t) option"
  and led_process_current_step ::
    "nat \<Rightarrow> led_pattern_config_t list \<Rightarrow> led_status_context_t \<Rightarrow> (fault + led_status_context_t) option"
where
  "led_start_next_step 0 tbl ctx = None"
| "led_start_next_step (Suc n) tbl ctx =
     (case pattern_of tbl (current_status ctx) of
        Inl f \<Rightarrow> Some (Inl f)
      | Inr config \<Rightarrow>
          if step_count config \<le> current_step ctx then
            (case step_of config 0 of
               Inl f \<Rightarrow> Some (Inl f)
             | Inr first_step \<Rightarrow>
                 if repeat_count first_step = 0 then
                   led_process_current_step n tbl
                     (ctx\<lparr> current_step := 0, current_flash := 0,
                           step_start_time := kernel_tick ctx \<rparr>)
                 else
                   (let ctx1 = led_set_physical_state False
                                 (ctx\<lparr> pattern_state := LED_PATTERN_STATE_COMPLETE \<rparr>)
                    in Some (Inr (if auto_stop config \<and> 0 < auto_stop_delay_ms config
                                  then ctx1\<lparr> auto_stop_timer := Some (ucast (auto_stop_delay_ms config)) \<rparr>
                                  else ctx1))))
          else
            led_process_current_step n tbl
              (ctx\<lparr> current_flash := 0, step_start_time := kernel_tick ctx \<rparr>))"
| "led_process_current_step 0 tbl ctx = None"
| "led_process_current_step (Suc n) tbl ctx =
     (case pattern_of tbl (current_status ctx) of
        Inl f \<Rightarrow> Some (Inl f)
      | Inr config \<Rightarrow>
          (case step_of config (current_step ctx) of
             Inl f \<Rightarrow> Some (Inl f)
           | Inr step \<Rightarrow>
               if flash_count step \<le> current_flash ctx \<and> 0 < flash_count step then
                 led_start_next_step n tbl (ctx\<lparr> current_step := current_step ctx + 1 \<rparr>)
               else
                 (let solid = (on_time_ms step = 0 \<and> off_time_ms step = 0);
                      next_led_state = (if solid then False else \<not> led_state ctx);
                      next_delay =
                        (if solid then 1000
                         else if \<not> led_state ctx then ucast (on_time_ms step)
                         else ucast (off_time_ms step)) :: 32 word;
                      ctx1 = (if \<not> solid \<and> led_state ctx
                              then ctx\<lparr> current_flash := current_flash ctx + 1 \<rparr> else ctx);
                      ctx2 = led_set_physical_state next_led_state ctx1
                  in if 0 < next_delay
                     then Some (Inr (ctx2\<lparr> timer_handle := Some next_delay \<rparr>))
                     else led_process_current_step n tbl ctx2)))"

text \<open>
  \<^verbatim>\<open>led_status_indicator_init\<close>. The two arguments say whether the two calls of
  \<^verbatim>\<open>osTimerNew\<close> return a timer. The other operations are those of an initialised module:
  they start and stop the two timers without looking at the handles.
\<close>

definition led_status_indicator_init ::
  "bool \<Rightarrow> bool \<Rightarrow> led_status_context_t \<Rightarrow> sl_status_t \<times> led_status_context_t" where
  "led_status_indicator_init timer_created auto_stop_created ctx =
     (let ctx1 = ctx\<lparr> current_status := LED_STATUS_OFF, pattern_state := LED_PATTERN_STATE_IDLE,
                      current_step := 0, current_flash := 0, repeat_counter := 0,
                      led_state := False, timer_handle := None \<rparr>
      in if \<not> timer_created then (SL_STATUS_FAIL, ctx1)
         else let ctx2 = ctx1\<lparr> auto_stop_timer := None \<rparr>
              in if \<not> auto_stop_created then (SL_STATUS_FAIL, ctx2)
                 else (SL_STATUS_OK, led_set_physical_state False ctx2))"

definition led_status_set ::
  "nat \<Rightarrow> led_pattern_config_t list \<Rightarrow> led_status_t \<Rightarrow> led_status_context_t
     \<Rightarrow> (fault + sl_status_t \<times> led_status_context_t) option" where
  "led_status_set n tbl status ctx =
     (if LED_STATUS_MAX \<le> status then Some (Inr (SL_STATUS_INVALID_PARAMETER, ctx))
      else
        (let ctx1 = ctx\<lparr> timer_handle := None, auto_stop_timer := None,
                         current_status := status, pattern_state := LED_PATTERN_STATE_ACTIVE,
                         current_step := 0, current_flash := 0, repeat_counter := 0,
                         pattern_start_time := kernel_tick ctx \<rparr>
         in if status = LED_STATUS_OFF \<or> status = LED_STATUS_OTA_SUCCESS then
              Some (Inr (SL_STATUS_OK,
                (led_set_physical_state False ctx1)\<lparr> pattern_state := LED_PATTERN_STATE_COMPLETE \<rparr>))
            else
              (case led_start_next_step n tbl ctx1 of
                 None \<Rightarrow> None
               | Some (Inl f) \<Rightarrow> Some (Inl f)
               | Some (Inr ctx2) \<Rightarrow> Some (Inr (SL_STATUS_OK, ctx2)))))"

definition led_status_get_current :: "led_status_context_t \<Rightarrow> led_status_t" where
  "led_status_get_current ctx = current_status ctx"

definition led_status_is_active :: "led_status_context_t \<Rightarrow> bool" where
  "led_status_is_active ctx = (pattern_state ctx = LED_PATTERN_STATE_ACTIVE)"

definition led_status_stop :: "led_status_context_t \<Rightarrow> led_status_context_t" where
  "led_status_stop ctx =
     (led_set_physical_state False (ctx\<lparr> timer_handle := None, auto_stop_timer := None \<rparr>))
       \<lparr> pattern_state := LED_PATTERN_STATE_IDLE, current_status := LED_STATUS_OFF \<rparr>"

text \<open>
  The two timer callbacks. Both timers are created as \<^verbatim>\<open>osTimerOnce\<close>: when the callback
  runs, its timer has expired and is no longer running.
\<close>

definition led_timer_callback ::
  "nat \<Rightarrow> led_pattern_config_t list \<Rightarrow> led_status_context_t \<Rightarrow> (fault + led_status_context_t) option" where
  "led_timer_callback n tbl ctx =
     (let ctx1 = ctx\<lparr> timer_handle := None \<rparr>
      in if pattern_state ctx1 = LED_PATTERN_STATE_ACTIVE
         then led_process_current_step n tbl ctx1
         else Some (Inr ctx1))"

definition auto_stop_timer_callback :: "led_status_context_t \<Rightarrow> led_status_context_t" where
  "auto_stop_timer_callback ctx = led_status_stop (ctx\<lparr> auto_stop_timer := None \<rparr>)"

text \<open>
  The step timer expiring \<open>k\<close> times in a row, with nothing else happening in between; a
  fault or an exhausted bound ends the run.
\<close>

fun led_timer_expiries ::
  "nat \<Rightarrow> nat \<Rightarrow> led_pattern_config_t list \<Rightarrow> led_status_context_t \<Rightarrow> (fault + led_status_context_t) option" where
  "led_timer_expiries 0 n tbl ctx = Some (Inr ctx)"
| "led_timer_expiries (Suc k) n tbl ctx =
     (case led_timer_callback n tbl ctx of
        Some (Inr ctx1) \<Rightarrow> led_timer_expiries k n tbl ctx1
      | r \<Rightarrow> r)"

text \<open>
  The context as the program starts with it (\<^verbatim>\<open>{0}\<close>), with the LED dark and the tick
  counter at \<open>tick\<close>.
\<close>

definition led_context_zero :: "32 word \<Rightarrow> led_status_context_t" where
  "led_context_zero tick =
     \<lparr> current_status = 0, pattern_state = LED_PATTERN_STATE_IDLE, current_step = 0,
       current_flash = 0, repeat_counter = 0, step_start_time = 0, pattern_start_time = 0,
       led_state = False, timer_handle = None, auto_stop_timer = None, blue_led = False,
       kernel_tick = tick \<rparr>"

subsection \<open>Predicates on patterns and contexts\<close>

text \<open>
  A table entry is usable when its \<open>steps\<close> pointer is not null and its \<open>step_count\<close>
  is at least 1 and at most the length of the array.
\<close>

definition pattern_ok :: "led_pattern_config_t \<Rightarrow> bool" where
  "pattern_ok config =
     (case steps config of
        None \<Rightarrow> False
      | Some xs \<Rightarrow> 0 < step_count config \<and> unat (step_count config) \<le> length xs)"

text \<open>A pattern whose first step has \<open>repeat_count = 0\<close>.\<close>

definition repeats_forever :: "led_pattern_config_t \<Rightarrow> bool" where
  "repeats_forever config =
     (case step_of config 0 of Inl f \<Rightarrow> False | Inr first_step \<Rightarrow> repeat_count first_step = 0)"

text \<open>
  The sequencer is stepping through the pattern of \<open>status\<close>: that status is current, the
  phase is ACTIVE and \<open>current_step\<close> is an index below \<open>step_count\<close>.
\<close>

definition stepping :: "led_pattern_config_t \<Rightarrow> led_status_t \<Rightarrow> led_status_context_t \<Rightarrow> bool" where
  "stepping config status ctx =
     (current_status ctx = status \<and> pattern_state ctx = LED_PATTERN_STATE_ACTIVE
      \<and> current_step ctx < step_count config)"

text \<open>
  A call returned, without a fault and within the bound, in a context that is stepping and
  has the step timer running.
\<close>

definition keeps_stepping ::
  "led_pattern_config_t \<Rightarrow> led_status_t \<Rightarrow> (fault + led_status_context_t) option \<Rightarrow> bool" where
  "keeps_stepping config status r =
     (case r of
        Some (Inr ctx') \<Rightarrow> stepping config status ctx' \<and> timer_handle ctx' \<noteq> None
      | _ \<Rightarrow> False)"

text \<open>
  Concrete inputs for the examples below: a context in the off phase of the pairing pattern;
  a table whose only entry is the power-on pattern with an auto-stop delay of 3000 ms (every
  entry of \<open>led_patterns\<close> has the delay 0); and a context at the end of that pattern.
\<close>

definition led_context_pairing :: led_status_context_t where
  "led_context_pairing =
     (led_context_zero 0)\<lparr> current_status := LED_STATUS_BLE_PAIRING,
       pattern_state := LED_PATTERN_STATE_ACTIVE, current_flash := 1,
       timer_handle := Some 800 \<rparr>"

definition led_patterns_delayed :: "led_pattern_config_t list" where
  "led_patterns_delayed =
     [\<lparr> steps = Some pattern_power_on, step_count = 1, auto_stop = True,
        auto_stop_delay_ms = 3000 \<rparr>]"

definition led_context_power_on_done :: led_status_context_t where
  "led_context_power_on_done =
     (led_context_zero 0)\<lparr> current_status := LED_STATUS_POWER_ON,
       pattern_state := LED_PATTERN_STATE_ACTIVE, current_step := 1, current_flash := 1 \<rparr>"

section \<open>Properties of the battery monitor\<close>

lemmas battery_defs =
  battery_monitor_update_values_def battery_update_state_def battery_handle_state_change_def
  battery_monitor_force_update_def

lemma battery_update_state_not_unknown:
  "state (g_battery_status (battery_update_state g)) \<noteq> BATTERY_STATE_UNKNOWN"
  by (simp add: battery_update_state_def Let_def)

lemma battery_handle_state_change_state:
  "state (g_battery_status (battery_handle_state_change a b g)) = state (g_battery_status g)"
  by (simp add: battery_handle_state_change_def Let_def split: battery_state_t.split option.split)

lemma battery_monitor_update_values_state:
  "state (g_battery_status (battery_monitor_update_values p v i g))
     = state (g_battery_status (battery_update_state
         (g\<lparr> g_battery_status := (g_battery_status g)
              \<lparr> battery_percent := p, battery_voltage := v, charging_current_ma := i \<rparr> \<rparr>)))"
  by (simp add: battery_monitor_update_values_def Let_def battery_handle_state_change_state)

lemma battery_call_exec_not_unknown:
  "state (g_battery_status (battery_call_exec c g)) \<noteq> BATTERY_STATE_UNKNOWN"
proof (cases c)
  case (Update_Values p v i)
  then show ?thesis
    by (simp only: battery_call_exec.simps battery_monitor_update_values_state
        battery_update_state_not_unknown not_False_eq_True)
next
  case Force_Update
  then show ?thesis
    by (simp add: battery_monitor_force_update_def battery_update_state_not_unknown)
qed

lemma battery_calls_exec_not_unknown:
  "state (g_battery_status g) \<noteq> BATTERY_STATE_UNKNOWN \<Longrightarrow>
   state (g_battery_status (battery_calls_exec cs g)) \<noteq> BATTERY_STATE_UNKNOWN"
  by (induction cs arbitrary: g) (simp_all add: battery_call_exec_not_unknown)

lemma battery_state_cases:
  "s \<noteq> BATTERY_STATE_UNKNOWN \<Longrightarrow>
   s \<in> {BATTERY_STATE_NORMAL, BATTERY_STATE_LOW, BATTERY_STATE_CRITICAL,
        BATTERY_STATE_CHARGING, BATTERY_STATE_FULL}"
  by (cases s) simp_all

lemma classified_update_state: "classified (battery_update_state g)"
  by (simp add: classified_def battery_update_state_def Let_def)

lemma battery_update_state_cong:
  "battery_percent (g_battery_status g') = battery_percent (g_battery_status g) \<Longrightarrow>
   charging_current_ma (g_battery_status g') = charging_current_ma (g_battery_status g) \<Longrightarrow>
   state (g_battery_status (battery_update_state g')) = state (g_battery_status (battery_update_state g))"
  by (simp add: battery_update_state_def Let_def)

lemma battery_handle_state_change_readings:
  "battery_percent (g_battery_status (battery_handle_state_change a b g))
     = battery_percent (g_battery_status g)"
  "charging_current_ma (g_battery_status (battery_handle_state_change a b g))
     = charging_current_ma (g_battery_status g)"
  by (simp_all add: battery_handle_state_change_def Let_def
      split: battery_state_t.split option.split)

lemma classified_handle_state_change:
  assumes "classified g"
  shows "classified (battery_handle_state_change a b g)"
proof -
  have "state (g_battery_status (battery_update_state (battery_handle_state_change a b g)))
      = state (g_battery_status (battery_update_state g))"
    by (rule battery_update_state_cong) (rule battery_handle_state_change_readings)+
  with assms show ?thesis
    by (simp add: classified_def battery_handle_state_change_state)
qed

lemma classified_call_exec: "classified (battery_call_exec c g)"
  by (cases c)
     (simp_all add: battery_monitor_update_values_def battery_monitor_force_update_def Let_def
        classified_update_state classified_handle_state_change)

lemma classified_init: "classified (snd (battery_monitor_init new_timer g))"
  by (simp add: classified_def battery_monitor_init_def battery_update_state_def Let_def)

lemma classified_calls_exec: "classified g \<Longrightarrow> classified (battery_calls_exec cs g)"
  by (induction cs arbitrary: g) (simp_all add: classified_call_exec)

lemma force_update_eq_update_values:
  assumes "classified g"
  shows "battery_monitor_force_update g
     = battery_monitor_update_values (battery_percent (g_battery_status g))
         (battery_voltage (g_battery_status g)) (charging_current_ma (g_battery_status g)) g"
  using assms
  by (simp add: classified_def battery_monitor_force_update_def battery_monitor_update_values_def
      Let_def)

text \<open>
  Claim C3. For every call \<^verbatim>\<open>battery_monitor_update_values(percent, voltage, current_ma)\<close>,
  from any state: \<open>is_charging\<close> becomes \<open>current_ma > 50\<close>; when charging, the state
  becomes FULL if \<open>percent \<ge> 95\<close> and CHARGING otherwise; when not charging, it becomes
  CRITICAL if \<open>percent \<le> 10\<close>, LOW if \<open>10 < percent \<le> 20\<close> and NORMAL if
  \<open>percent > 20\<close>. The call with the readings (100, 4.2, 20), which is
  \<^verbatim>\<open>battery_monitor_simulate_charging_complete\<close>, gives \<open>is_charging = False\<close> and the
  state NORMAL.
\<close>

theorem update_values_classification:
  "is_charging (g_battery_status (battery_monitor_update_values percent voltage current_ma g))
     = float_gt current_ma (Finite 50)
   \<and> state (g_battery_status (battery_monitor_update_values percent voltage current_ma g))
     = (if float_gt current_ma (Finite 50)
        then (if 95 \<le> uint percent then BATTERY_STATE_FULL else BATTERY_STATE_CHARGING)
        else (if uint percent \<le> 10 then BATTERY_STATE_CRITICAL
              else if uint percent \<le> 20 then BATTERY_STATE_LOW
              else BATTERY_STATE_NORMAL))
   \<and> is_charging (g_battery_status (battery_monitor_simulate_charging_complete g)) = False
   \<and> state (g_battery_status (battery_monitor_simulate_charging_complete g)) = BATTERY_STATE_NORMAL"
  by (simp add: battery_defs battery_monitor_simulate_charging_complete_def Let_def
      split: battery_state_t.split option.split)

theorem update_values_classification_witness:
  "float_gt (Finite 500) (Finite 50)
   \<and> \<not> 95 \<le> uint (30 :: 8 word)
   \<and> is_charging (g_battery_status
        (battery_monitor_update_values 30 (Finite 3.5) (Finite 500) battery_globals_started))
   \<and> state (g_battery_status
        (battery_monitor_update_values 30 (Finite 3.5) (Finite 500) battery_globals_started))
       = BATTERY_STATE_CHARGING
   \<and> \<not> float_gt (Finite 0) (Finite 50)
   \<and> \<not> uint (15 :: 8 word) \<le> 10
   \<and> uint (15 :: 8 word) \<le> 20
   \<and> state (g_battery_status
        (battery_monitor_update_values 15 (Finite 3.2) (Finite 0) battery_globals_started))
       = BATTERY_STATE_LOW"
  using update_values_classification [of 30 "Finite 3.5" "Finite 500" battery_globals_started]
    update_values_classification [of 15 "Finite 3.2" "Finite 0" battery_globals_started]
  by simp

text \<open>
  Claim C8. With a callback registered, a call of \<^verbatim>\<open>battery_monitor_update_values\<close> calls
  it exactly once when the derived state differs from the state stored before, with the old
  state, the new state and the status record, and does not call it when the state is the
  same. When it calls, the low-battery warning flag is set if the new state is LOW or
  CRITICAL and clear if it is CHARGING, FULL or NORMAL; when it does not, the flag is left as
  it was. From a stored state NORMAL, the call with the readings (15, 3.2, 0), which is
  \<^verbatim>\<open>battery_monitor_simulate_low_battery\<close>, gives the state LOW, one call with
  (NORMAL, LOW), and the flag set.
\<close>

theorem update_values_raises_event_once:
  assumes "g_state_callback g = Some cb"
  shows "let old_state = state (g_battery_status g);
             g' = battery_monitor_update_values percent voltage current_ma g;
             new_state = state (g_battery_status g')
         in (new_state \<noteq> old_state \<longrightarrow>
               callback_calls g' = callback_calls g @ [(cb, old_state, new_state, g_battery_status g')]
               \<and> (new_state \<in> {BATTERY_STATE_LOW, BATTERY_STATE_CRITICAL} \<longrightarrow>
                    is_low_battery_warning_active (g_battery_status g'))
               \<and> (new_state \<in> {BATTERY_STATE_CHARGING, BATTERY_STATE_FULL, BATTERY_STATE_NORMAL} \<longrightarrow>
                    \<not> is_low_battery_warning_active (g_battery_status g')))
          \<and> (new_state = old_state \<longrightarrow>
               callback_calls g' = callback_calls g
               \<and> is_low_battery_warning_active (g_battery_status g')
                   = is_low_battery_warning_active (g_battery_status g))
          \<and> (old_state = BATTERY_STATE_NORMAL \<longrightarrow>
               state (g_battery_status (battery_monitor_simulate_low_battery g)) = BATTERY_STATE_LOW
               \<and> callback_calls (battery_monitor_simulate_low_battery g)
                   = callback_calls g @ [(cb, BATTERY_STATE_NORMAL, BATTERY_STATE_LOW,
                        g_battery_status (battery_monitor_simulate_low_battery g))]
               \<and> is_low_battery_warning_active
                   (g_battery_status (battery_monitor_simulate_low_battery g)))"
  using assms
  by (simp add: battery_defs battery_monitor_simulate_low_battery_def Let_def)

theorem update_values_raises_event_once_witness:
  "g_state_callback battery_globals_started = Some 1
   \<and> state (g_battery_status battery_globals_started) = BATTERY_STATE_NORMAL
   \<and> state (g_battery_status (battery_monitor_update_values 15 (Finite 3.2) (Finite 0) battery_globals_started))
       = BATTERY_STATE_LOW
   \<and> callback_calls (battery_monitor_update_values 15 (Finite 3.2) (Finite 0) battery_globals_started)
       = [(1, BATTERY_STATE_NORMAL, BATTERY_STATE_LOW,
           \<lparr> battery_percent = 15, battery_voltage = Finite 3.2, charging_current_ma = Finite 0,
             state = BATTERY_STATE_LOW, is_charging = False,
             is_low_battery_warning_active = True \<rparr>)]
   \<and> callback_calls (battery_monitor_update_values 15 (Finite 3.2) (Finite 0)
        (battery_monitor_update_values 15 (Finite 3.2) (Finite 0) battery_globals_started))
       = callback_calls (battery_monitor_update_values 15 (Finite 3.2) (Finite 0) battery_globals_started)"
proof -
  have cb: "g_state_callback battery_globals_started = Some 1"
    by (simp add: battery_globals_started_def battery_monitor_set_callback_def
        battery_monitor_init_def battery_globals_zero_def Let_def)
  have cb': "g_state_callback (battery_monitor_update_values 15 (Finite 3.2) (Finite 0) battery_globals_started) = Some 1"
    by (simp add: battery_globals_started_def battery_monitor_set_callback_def
        battery_monitor_init_def battery_globals_zero_def Let_def battery_defs)
  show ?thesis
    using cb update_values_raises_event_once [OF cb, of 15 "Finite 3.2" "Finite 0"]
      update_values_raises_event_once [OF cb', of 15 "Finite 3.2" "Finite 0"]
    by (simp add: battery_globals_started_def battery_monitor_set_callback_def
        battery_monitor_init_def battery_globals_zero_def Let_def battery_defs
        battery_monitor_simulate_low_battery_def)
qed

text \<open>
  Claim C10. After \<^verbatim>\<open>battery_monitor_init\<close>, whether or not the timer could be created,
  the stored state is NORMAL, the percentage 100 and \<open>is_charging\<close> false; and after any
  sequence of \<^verbatim>\<open>battery_monitor_update_values\<close> and \<^verbatim>\<open>battery_monitor_force_update\<close>
  calls that follows, the stored state is one of NORMAL, LOW, CRITICAL, CHARGING and FULL,
  never UNKNOWN.
\<close>

theorem unknown_state_unreachable:
  "state (g_battery_status (snd (battery_monitor_init new_timer g))) = BATTERY_STATE_NORMAL
   \<and> battery_percent (g_battery_status (snd (battery_monitor_init new_timer g))) = 100
   \<and> is_charging (g_battery_status (snd (battery_monitor_init new_timer g))) = False
   \<and> state (g_battery_status (battery_calls_exec cs (snd (battery_monitor_init new_timer g))))
       \<noteq> BATTERY_STATE_UNKNOWN
   \<and> state (g_battery_status (battery_calls_exec cs (snd (battery_monitor_init new_timer g))))
       \<in> {BATTERY_STATE_NORMAL, BATTERY_STATE_LOW, BATTERY_STATE_CRITICAL,
          BATTERY_STATE_CHARGING, BATTERY_STATE_FULL}"
proof -
  let ?g0 = "snd (battery_monitor_init new_timer g)"
  have init: "state (g_battery_status ?g0) = BATTERY_STATE_NORMAL"
    "battery_percent (g_battery_status ?g0) = 100"
    "is_charging (g_battery_status ?g0) = False"
    by (simp_all add: battery_monitor_init_def Let_def)
  then have "state (g_battery_status ?g0) \<noteq> BATTERY_STATE_UNKNOWN"
    by simp
  then have run: "state (g_battery_status (battery_calls_exec cs ?g0)) \<noteq> BATTERY_STATE_UNKNOWN"
    by (rule battery_calls_exec_not_unknown)
  from init run battery_state_cases [OF run] show ?thesis
    by blast
qed

text \<open>
  Claim C2, as the code has it. \<^verbatim>\<open>battery_monitor_force_update\<close> stores the same
  \<open>state\<close> and \<open>is_charging\<close> as \<^verbatim>\<open>battery_monitor_update_values\<close> called with the
  stored readings, but it never calls the callback and never changes the low-battery warning
  flag. The two calls have the same effect in every classified state, and every state reached
  from \<^verbatim>\<open>battery_monitor_init\<close> by calls of the two operations is classified, so that the
  two calls have the same effect there.
\<close>

theorem force_update_reclassifies_silently:
  "callback_calls (battery_monitor_force_update g) = callback_calls g
   \<and> is_low_battery_warning_active (g_battery_status (battery_monitor_force_update g))
       = is_low_battery_warning_active (g_battery_status g)
   \<and> state (g_battery_status (battery_monitor_force_update g))
       = state (g_battery_status (battery_monitor_update_values (battery_percent (g_battery_status g))
           (battery_voltage (g_battery_status g)) (charging_current_ma (g_battery_status g)) g))
   \<and> is_charging (g_battery_status (battery_monitor_force_update g))
       = is_charging (g_battery_status (battery_monitor_update_values (battery_percent (g_battery_status g))
           (battery_voltage (g_battery_status g)) (charging_current_ma (g_battery_status g)) g))
   \<and> (classified g \<longrightarrow>
        battery_monitor_force_update g
          = battery_monitor_update_values (battery_percent (g_battery_status g))
              (battery_voltage (g_battery_status g)) (charging_current_ma (g_battery_status g)) g)
   \<and> (let r = battery_calls_exec cs (snd (battery_monitor_init new_timer g0))
      in classified r
         \<and> battery_monitor_force_update r
             = battery_monitor_update_values (battery_percent (g_battery_status r))
                 (battery_voltage (g_battery_status r)) (charging_current_ma (g_battery_status r)) r)"
proof -
  have "callback_calls (battery_monitor_force_update g) = callback_calls g"
    by (simp add: battery_monitor_force_update_def battery_update_state_def Let_def)
  moreover have "is_low_battery_warning_active (g_battery_status (battery_monitor_force_update g))
       = is_low_battery_warning_active (g_battery_status g)"
    by (simp add: battery_monitor_force_update_def battery_update_state_def Let_def)
  moreover have "state (g_battery_status (battery_monitor_force_update g))
       = state (g_battery_status (battery_monitor_update_values (battery_percent (g_battery_status g))
           (battery_voltage (g_battery_status g)) (charging_current_ma (g_battery_status g)) g))"
    by (simp add: battery_monitor_update_values_state battery_monitor_force_update_def)
  moreover have "is_charging (g_battery_status (battery_monitor_force_update g))
       = is_charging (g_battery_status (battery_monitor_update_values (battery_percent (g_battery_status g))
           (battery_voltage (g_battery_status g)) (charging_current_ma (g_battery_status g)) g))"
    by (simp add: battery_defs Let_def split: battery_state_t.split option.split)
  moreover have "classified (battery_calls_exec cs (snd (battery_monitor_init new_timer g0)))"
    by (rule classified_calls_exec [OF classified_init])
  ultimately show ?thesis
    unfolding Let_def using force_update_eq_update_values by blast
qed

theorem force_update_reclassifies_silently_witness:
  "classified battery_globals_started
   \<and> battery_monitor_force_update battery_globals_started
       = battery_monitor_update_values 100 (Finite 4.2) (Finite 0) battery_globals_started"
proof -
  have c: "classified battery_globals_started"
    by (simp add: classified_def battery_globals_started_def battery_monitor_set_callback_def
        battery_monitor_init_def battery_globals_zero_def battery_update_state_def Let_def)
  have v: "battery_percent (g_battery_status battery_globals_started) = 100"
    "battery_voltage (g_battery_status battery_globals_started) = Finite 4.2"
    "charging_current_ma (g_battery_status battery_globals_started) = Finite 0"
    by (simp_all add: battery_globals_started_def battery_monitor_set_callback_def
        battery_monitor_init_def battery_globals_zero_def Let_def)
  from c force_update_reclassifies_silently [where g = battery_globals_started]
  show ?thesis
    by (simp only: v simp_thms)
qed

text \<open>
  Claim C2, as the specification has it, fails before \<^verbatim>\<open>battery_monitor_init\<close>: the stored
  state is UNKNOWN, the stored readings classify as CRITICAL,
  \<^verbatim>\<open>battery_monitor_update_values\<close> with the stored readings calls the registered callback
  and sets the warning flag, and \<^verbatim>\<open>battery_monitor_force_update\<close> changes the state
  without calling anything.
\<close>

theorem force_update_equivalence_counterexample:
  "state (g_battery_status (battery_monitor_force_update battery_globals_observed))
     \<noteq> state (g_battery_status battery_globals_observed)
   \<and> callback_calls (battery_monitor_force_update battery_globals_observed) = []
   \<and> callback_calls (battery_monitor_update_values
        (battery_percent (g_battery_status battery_globals_observed))
        (battery_voltage (g_battery_status battery_globals_observed))
        (charging_current_ma (g_battery_status battery_globals_observed))
        battery_globals_observed)
       = [(1, BATTERY_STATE_UNKNOWN, BATTERY_STATE_CRITICAL,
           \<lparr> battery_percent = 0, battery_voltage = Finite 0, charging_current_ma = Finite 0,
             state = BATTERY_STATE_CRITICAL, is_charging = False,
             is_low_battery_warning_active = True \<rparr>)]
   \<and> battery_monitor_force_update battery_globals_observed
       \<noteq> battery_monitor_update_values
        (battery_percent (g_battery_status battery_globals_observed))
        (battery_voltage (g_battery_status battery_globals_observed))
        (charging_current_ma (g_battery_status battery_globals_observed))
        battery_globals_observed"
  by (simp add: battery_globals_observed_def battery_monitor_set_callback_def
      battery_globals_zero_def battery_defs Let_def)

section \<open>Properties of the LED status indicator\<close>

subsection \<open>Auxiliary facts\<close>

lemmas led_table_defs =
  led_patterns_def led_pattern_config_zero_def pattern_of_def step_of_def
  pattern_power_on_def pattern_ble_pairing_def pattern_ble_pair_success_def
  pattern_ble_pair_fail_def pattern_factory_reset_def pattern_ota_update_def
  pattern_ota_fail_def pattern_off_def

lemma led_status_cases:
  "(s :: 32 word) < 12 \<Longrightarrow>
   s = 0 \<or> s = 1 \<or> s = 2 \<or> s = 3 \<or> s = 4 \<or> s = 5 \<or> s = 6 \<or> s = 7 \<or> s = 8 \<or> s = 9 \<or> s = 10 \<or> s = 11"
  unfolding word_less_nat_alt word_unat_eq_iff by simp arith

lemma led_status_max_not_le_one: "\<not> LED_STATUS_MAX \<le> (1 :: 32 word)"
  by (simp add: word_le_nat_alt)

lemma ucast_delay_zero: "((ucast (w :: 16 word) :: 32 word) = 0) = (w = 0)"
proof -
  have "unat w < 2 ^ 16"
    using unsigned_less [of w] by simp
  then have "unat (ucast w :: 32 word) = unat w"
    by (simp add: unsigned_ucast_eq take_bit_nat_eq_self)
  then show ?thesis
    by (simp add: word_unat_eq_iff)
qed

lemma ucast_delay_pos: "(0 < (ucast (w :: 16 word) :: 32 word)) = (w \<noteq> 0)"
  by (simp add: word_gt_0 ucast_delay_zero)

lemma step_of_in_range:
  assumes "pattern_ok config" and "i < step_count config"
  shows "\<exists>step. step_of config i = Inr step"
  using assms
  by (auto simp add: pattern_ok_def step_of_def word_less_nat_alt split: option.splits)

lemma fresh_step_not_finished: "\<not> (c \<le> (0 :: 8 word) \<and> 0 < c)"
  by (simp add: word_gt_0)

lemma no_op_pattern_statuses:
  assumes "status < LED_STATUS_MAX"
    and "status = LED_STATUS_OFF \<or> steps (led_patterns ! unat status) = Some pattern_off"
  shows "status = LED_STATUS_OFF \<or> status = LED_STATUS_OTA_SUCCESS"
  using led_status_cases [OF assms(1)] assms(2)
  by (elim disjE) (simp_all add: led_table_defs)

subsection \<open>\<^verbatim>\<open>led_status_set\<close>\<close>

text \<open>
  What holds of the argument check: the invalid-parameter status is returned exactly for
  \<open>status \<ge> LED_STATUS_MAX\<close>, and then the context is returned as it was.
\<close>

lemma led_status_set_invalid_iff:
  "(\<exists>ctx'. led_status_set n tbl status ctx = Some (Inr (SL_STATUS_INVALID_PARAMETER, ctx')))
     = (LED_STATUS_MAX \<le> status)"
  by (auto simp add: led_status_set_def Let_def split: option.splits sum.splits)

lemma led_status_set_invalid_unchanged:
  "LED_STATUS_MAX \<le> status \<Longrightarrow>
   led_status_set n tbl status ctx = Some (Inr (SL_STATUS_INVALID_PARAMETER, ctx))"
  by (simp add: led_status_set_def)

text \<open>
  For the nine statuses that have an initialiser in the table, the call returns
  \<^verbatim>\<open>SL_STATUS_OK\<close>, whatever the context.
\<close>

lemma led_status_set_with_entry_returns_ok:
  assumes "status \<in> {LED_STATUS_POWER_ON, LED_STATUS_BLE_PAIRING, LED_STATUS_BLE_PAIR_SUCCESS,
      LED_STATUS_BLE_PAIR_FAIL, LED_STATUS_FACTORY_RESET, LED_STATUS_OTA_UPDATE,
      LED_STATUS_OTA_SUCCESS, LED_STATUS_OTA_FAIL, LED_STATUS_OFF}"
  shows "\<exists>ctx'. led_status_set (Suc (Suc (Suc (Suc (Suc (Suc n)))))) led_patterns status ctx
      = Some (Inr (SL_STATUS_OK, ctx'))"
  using assms
  by (cases "led_state ctx")
     (auto simp add: led_status_set_def led_table_defs Let_def led_set_physical_state_def
        led_status_max_not_le_one)

text \<open>
  Claim C1. The claim is that every status that \<^verbatim>\<open>led_status_set\<close> accepts and passes on
  to the step-advance logic has a table entry with a non-empty \<open>steps\<close> array, so that
  every \<^verbatim>\<open>steps[0]\<close> and \<^verbatim>\<open>steps[current_step]\<close> is a read inside an initialised
  array. The code does not have this property: \<^verbatim>\<open>LED_STATUS_LOW_BATTERY\<close> is accepted,
  is not one of the two statuses handled before the step-advance logic, and its table entry
  has a null \<open>steps\<close> pointer and \<open>step_count = 0\<close>; \<^verbatim>\<open>led_start_next_step\<close> then
  reads \<^verbatim>\<open>steps[0]\<close> through the null pointer.
\<close>

theorem led_status_set_low_battery_faults:
  "led_status_set (Suc n) led_patterns LED_STATUS_LOW_BATTERY ctx = Some (Inl Null_Pointer_Read)
   \<and> steps (led_patterns ! unat LED_STATUS_LOW_BATTERY) = None
   \<and> step_count (led_patterns ! unat LED_STATUS_LOW_BATTERY) = 0"
  by (simp add: led_status_set_def led_table_defs Let_def)

text \<open>
  Claim C6. The claim is that \<^verbatim>\<open>led_status_set\<close> returns success for every status below
  \<^verbatim>\<open>LED_STATUS_MAX\<close>. The code does not: for \<^verbatim>\<open>LED_STATUS_CHARGING\<close> and
  \<^verbatim>\<open>LED_STATUS_CHARGE_COMPLETE\<close>, both in range, the call runs into the read through the
  null \<open>steps\<close> pointer of the missing table entry and returns nothing.
\<close>

theorem led_status_set_charging_faults:
  "LED_STATUS_CHARGING < LED_STATUS_MAX
   \<and> led_status_set (Suc n) led_patterns LED_STATUS_CHARGING ctx = Some (Inl Null_Pointer_Read)
   \<and> led_status_set (Suc n) led_patterns LED_STATUS_CHARGE_COMPLETE ctx = Some (Inl Null_Pointer_Read)"
  by (simp add: led_status_set_def led_table_defs Let_def)

text \<open>
  Claim C7. For \<^verbatim>\<open>LED_STATUS_OFF\<close>, and for every status in range whose entry in
  \<open>led_patterns\<close> points to the no-op pattern \<open>pattern_off\<close>, \<^verbatim>\<open>led_status_set\<close>
  returns success with the output off, the phase COMPLETE and neither timer running;
  afterwards \<^verbatim>\<open>led_status_is_active\<close> is false and \<^verbatim>\<open>led_status_get_current\<close>
  returns the status that was set.
\<close>

theorem led_status_set_off_pattern:
  assumes "status < LED_STATUS_MAX"
    and "status = LED_STATUS_OFF \<or> steps (led_patterns ! unat status) = Some pattern_off"
  shows "led_status_set n led_patterns status ctx
      = Some (Inr (SL_STATUS_OK,
          ctx\<lparr> timer_handle := None, auto_stop_timer := None, current_status := status,
               pattern_state := LED_PATTERN_STATE_COMPLETE, current_step := 0,
               current_flash := 0, repeat_counter := 0, pattern_start_time := kernel_tick ctx,
               led_state := False, blue_led := False \<rparr>))
    \<and> (\<forall>ctx'. led_status_set n led_patterns status ctx = Some (Inr (SL_STATUS_OK, ctx')) \<longrightarrow>
          led_state ctx' = False \<and> blue_led ctx' = False
          \<and> pattern_state ctx' = LED_PATTERN_STATE_COMPLETE
          \<and> timer_handle ctx' = None \<and> auto_stop_timer ctx' = None
          \<and> led_status_is_active ctx' = False
          \<and> led_status_get_current ctx' = status)"
proof -
  from assms have "status = LED_STATUS_OFF \<or> status = LED_STATUS_OTA_SUCCESS"
    by (rule no_op_pattern_statuses)
  then show ?thesis
    by (auto simp add: led_status_set_def led_set_physical_state_def Let_def
        led_status_is_active_def led_status_get_current_def)
qed

theorem led_status_set_off_pattern_witness:
  "LED_STATUS_OTA_SUCCESS < LED_STATUS_MAX
   \<and> steps (led_patterns ! unat LED_STATUS_OTA_SUCCESS) = Some pattern_off
   \<and> led_status_set 0 led_patterns LED_STATUS_OTA_SUCCESS led_context_pairing
       = Some (Inr (SL_STATUS_OK,
           led_context_pairing\<lparr> timer_handle := None, auto_stop_timer := None,
             current_status := LED_STATUS_OTA_SUCCESS,
             pattern_state := LED_PATTERN_STATE_COMPLETE, current_step := 0,
             current_flash := 0, repeat_counter := 0,
             pattern_start_time := kernel_tick led_context_pairing,
             led_state := False, blue_led := False \<rparr>))"
proof -
  have valid: "LED_STATUS_OTA_SUCCESS < LED_STATUS_MAX"
    by simp
  have entry: "steps (led_patterns ! unat LED_STATUS_OTA_SUCCESS) = Some pattern_off"
    by (simp add: led_patterns_def)
  from led_status_set_off_pattern [OF valid disjI2 [OF entry], of 0 led_context_pairing]
    valid entry
  show ?thesis
    by simp
qed

subsection \<open>\<^verbatim>\<open>led_status_stop\<close>\<close>

text \<open>
  Claim C9. \<^verbatim>\<open>led_status_stop\<close> is defined on every context. After one call the phase is
  IDLE, the current status is OFF, the output is off and no timer is running; a second call
  right after the first leaves the context as the first call left it.
\<close>

theorem led_status_stop_idempotent:
  "led_status_stop (led_status_stop ctx) = led_status_stop ctx
   \<and> pattern_state (led_status_stop ctx) = LED_PATTERN_STATE_IDLE
   \<and> current_status (led_status_stop ctx) = LED_STATUS_OFF
   \<and> led_state (led_status_stop ctx) = False
   \<and> blue_led (led_status_stop ctx) = False
   \<and> timer_handle (led_status_stop ctx) = None
   \<and> auto_stop_timer (led_status_stop ctx) = None
   \<and> led_status_get_current (led_status_stop ctx) = LED_STATUS_OFF
   \<and> led_status_is_active (led_status_stop ctx) = False"
  by (simp add: led_status_stop_def led_set_physical_state_def led_status_get_current_def
      led_status_is_active_def)

subsection \<open>The end of a pattern that does not repeat\<close>

text \<open>
  Claim C5. For a pattern whose first step has a \<open>repeat_count\<close> other than 0: when
  \<^verbatim>\<open>led_start_next_step\<close> runs with \<open>current_step\<close> past the last step, it returns with
  the phase COMPLETE and the output off. If the pattern has \<open>auto_stop\<close> set and a delay
  \<open>D > 0\<close>, the auto-stop timer is then running with \<open>D\<close> ticks, and after its
  callback the phase is IDLE and the current status OFF. Otherwise the auto-stop timer is left
  as it was. The callback calls \<^verbatim>\<open>led_status_stop\<close> without a condition: in every
  context \<open>c\<close>, whatever its phase, it does what \<^verbatim>\<open>led_status_stop\<close> does, so that
  afterwards the phase is IDLE, the current status OFF, the output off and no timer running.
\<close>

theorem finite_pattern_completes:
  assumes "pattern_of tbl (current_status ctx) = Inr config"
    and "step_of config 0 = Inr first_step"
    and "repeat_count first_step \<noteq> 0"
    and "step_count config \<le> current_step ctx"
  shows "(\<exists>ctx'. led_start_next_step (Suc n) tbl ctx = Some (Inr ctx')
      \<and> pattern_state ctx' = LED_PATTERN_STATE_COMPLETE
      \<and> led_state ctx' = False \<and> blue_led ctx' = False
      \<and> timer_handle ctx' = timer_handle ctx
      \<and> auto_stop_timer_callback ctx' = led_status_stop ctx'
      \<and> (auto_stop config \<and> 0 < auto_stop_delay_ms config \<longrightarrow>
           auto_stop_timer ctx' = Some (ucast (auto_stop_delay_ms config))
           \<and> pattern_state (auto_stop_timer_callback ctx') = LED_PATTERN_STATE_IDLE
           \<and> current_status (auto_stop_timer_callback ctx') = LED_STATUS_OFF)
      \<and> (\<not> (auto_stop config \<and> 0 < auto_stop_delay_ms config) \<longrightarrow>
           auto_stop_timer ctx' = auto_stop_timer ctx))
    \<and> (\<forall>c. auto_stop_timer_callback c = led_status_stop c
          \<and> pattern_state (auto_stop_timer_callback c) = LED_PATTERN_STATE_IDLE
          \<and> current_status (auto_stop_timer_callback c) = LED_STATUS_OFF
          \<and> led_state (auto_stop_timer_callback c) = False
          \<and> blue_led (auto_stop_timer_callback c) = False
          \<and> timer_handle (auto_stop_timer_callback c) = None
          \<and> auto_stop_timer (auto_stop_timer_callback c) = None)"
proof (rule conjI)
  show "\<exists>ctx'. led_start_next_step (Suc n) tbl ctx = Some (Inr ctx')
      \<and> pattern_state ctx' = LED_PATTERN_STATE_COMPLETE
      \<and> led_state ctx' = False \<and> blue_led ctx' = False
      \<and> timer_handle ctx' = timer_handle ctx
      \<and> auto_stop_timer_callback ctx' = led_status_stop ctx'
      \<and> (auto_stop config \<and> 0 < auto_stop_delay_ms config \<longrightarrow>
           auto_stop_timer ctx' = Some (ucast (auto_stop_delay_ms config))
           \<and> pattern_state (auto_stop_timer_callback ctx') = LED_PATTERN_STATE_IDLE
           \<and> current_status (auto_stop_timer_callback ctx') = LED_STATUS_OFF)
      \<and> (\<not> (auto_stop config \<and> 0 < auto_stop_delay_ms config) \<longrightarrow>
           auto_stop_timer ctx' = auto_stop_timer ctx)"
    using assms
    by (simp add: Let_def led_set_physical_state_def auto_stop_timer_callback_def
        led_status_stop_def)
  show "\<forall>c. auto_stop_timer_callback c = led_status_stop c
      \<and> pattern_state (auto_stop_timer_callback c) = LED_PATTERN_STATE_IDLE
      \<and> current_status (auto_stop_timer_callback c) = LED_STATUS_OFF
      \<and> led_state (auto_stop_timer_callback c) = False
      \<and> blue_led (auto_stop_timer_callback c) = False
      \<and> timer_handle (auto_stop_timer_callback c) = None
      \<and> auto_stop_timer (auto_stop_timer_callback c) = None"
    by (simp add: auto_stop_timer_callback_def led_status_stop_def led_set_physical_state_def)
qed

theorem finite_pattern_completes_witness:
  "pattern_of led_patterns_delayed (current_status led_context_power_on_done)
     = Inr (led_patterns_delayed ! 0)
   \<and> step_of (led_patterns_delayed ! 0) 0 = Inr (pattern_power_on ! 0)
   \<and> repeat_count (pattern_power_on ! 0) \<noteq> 0
   \<and> step_count (led_patterns_delayed ! 0) \<le> current_step led_context_power_on_done
   \<and> auto_stop (led_patterns_delayed ! 0) \<and> 0 < auto_stop_delay_ms (led_patterns_delayed ! 0)
   \<and> (\<exists>ctx'. led_start_next_step 1 led_patterns_delayed led_context_power_on_done = Some (Inr ctx')
         \<and> pattern_state ctx' = LED_PATTERN_STATE_COMPLETE
         \<and> led_state ctx' = False
         \<and> auto_stop_timer ctx' = Some 3000
         \<and> pattern_state (auto_stop_timer_callback ctx') = LED_PATTERN_STATE_IDLE
         \<and> current_status (auto_stop_timer_callback ctx') = LED_STATUS_OFF)
   \<and> pattern_state led_context_pairing = LED_PATTERN_STATE_ACTIVE
   \<and> auto_stop_timer_callback led_context_pairing = led_status_stop led_context_pairing
   \<and> pattern_state (auto_stop_timer_callback led_context_pairing) = LED_PATTERN_STATE_IDLE
   \<and> current_status (auto_stop_timer_callback led_context_pairing) = LED_STATUS_OFF"
proof -
  have a: "pattern_state led_context_pairing = LED_PATTERN_STATE_ACTIVE"
    by (simp add: led_context_pairing_def led_context_zero_def)
  have h: "pattern_of led_patterns_delayed (current_status led_context_power_on_done)
        = Inr (led_patterns_delayed ! 0)"
    "step_of (led_patterns_delayed ! 0) 0 = Inr (pattern_power_on ! 0)"
    "repeat_count (pattern_power_on ! 0) \<noteq> 0"
    "step_count (led_patterns_delayed ! 0) \<le> current_step led_context_power_on_done"
    by (simp_all add: led_patterns_delayed_def led_context_power_on_done_def
        led_context_zero_def pattern_of_def step_of_def pattern_power_on_def)
  have d: "auto_stop (led_patterns_delayed ! 0)"
    "0 < auto_stop_delay_ms (led_patterns_delayed ! 0)"
    "auto_stop_delay_ms (led_patterns_delayed ! 0) = 3000"
    by (simp_all add: led_patterns_delayed_def)
  note t = finite_pattern_completes [OF h, of 0]
  from conjunct1 [OF t] spec [OF conjunct2 [OF t], of led_context_pairing] h d a
  show ?thesis
    by auto
qed

subsection \<open>Patterns that repeat forever\<close>

text \<open>
  The two functions call each other at most seven levels deep. The lemmas follow the calls
  from the innermost outwards; the number in each is the depth that the case needs.
\<close>

lemma process_unfinished_led_off:
  assumes tbl: "pattern_of tbl status = Inr config"
    and ctx: "stepping config status ctx"
    and step: "step_of config (current_step ctx) = Inr step"
    and unfinished: "\<not> (flash_count step \<le> current_flash ctx \<and> 0 < flash_count step)"
    and off: "\<not> led_state ctx"
    and fuel: "2 \<le> m"
  shows "keeps_stepping config status (led_process_current_step m tbl ctx)"
proof -
  from fuel obtain n where m: "m = Suc (Suc n)"
    by (metis Suc_le_D numeral_2_eq_2 Suc_le_mono)
  from ctx have st: "current_status ctx = status"
    by (simp add: stepping_def)
  from unfinished
  have uf: "(flash_count step \<le> current_flash ctx \<and> 0 < flash_count step) = False"
    by simp
  from off have led: "led_state ctx = False"
    by simp
  show ?thesis
    using ctx unfolding m
    by (simp add: st tbl step uf led Let_def led_set_physical_state_def ucast_delay_pos
        stepping_def keeps_stepping_def)
qed


lemma start_led_off:
  assumes tbl: "pattern_of tbl status = Inr config"
    and ok: "pattern_ok config"
    and rep: "repeats_forever config"
    and st: "current_status ctx = status"
    and act: "pattern_state ctx = LED_PATTERN_STATE_ACTIVE"
    and off: "\<not> led_state ctx"
    and fuel: "3 \<le> m"
  shows "keeps_stepping config status (led_start_next_step m tbl ctx)"
proof -
  from fuel obtain n where m: "m = Suc n" and n: "2 \<le> n"
    by (cases m) simp_all
  from ok have pos: "0 < step_count config"
    by (simp add: pattern_ok_def split: option.splits)
  from rep obtain first_step where first: "step_of config 0 = Inr first_step"
    and zero: "repeat_count first_step = 0"
    by (auto simp add: repeats_forever_def split: sum.splits)
  define ctx1 where "ctx1 = ctx\<lparr> current_step :=
      (if step_count config \<le> current_step ctx then 0 else current_step ctx),
      current_flash := 0, step_start_time := kernel_tick ctx \<rparr>"
  have eq: "led_start_next_step m tbl ctx = led_process_current_step n tbl ctx1"
    by (simp add: m st tbl first zero ctx1_def)
  have s1: "stepping config status ctx1"
    using pos by (simp add: stepping_def ctx1_def st act not_le)
  then obtain step where step: "step_of config (current_step ctx1) = Inr step"
    using step_of_in_range [OF ok] by (auto simp add: stepping_def)
  have "keeps_stepping config status (led_process_current_step n tbl ctx1)"
  proof (rule process_unfinished_led_off [OF tbl s1 step _ _ n])
    show "\<not> (flash_count step \<le> current_flash ctx1 \<and> 0 < flash_count step)"
      by (simp add: ctx1_def fresh_step_not_finished)
    show "\<not> led_state ctx1"
      using off by (simp add: ctx1_def)
  qed
  with eq show ?thesis
    by simp
qed

lemma process_led_off:
  assumes tbl: "pattern_of tbl status = Inr config"
    and ok: "pattern_ok config"
    and rep: "repeats_forever config"
    and ctx: "stepping config status ctx"
    and off: "\<not> led_state ctx"
    and fuel: "4 \<le> m"
  shows "keeps_stepping config status (led_process_current_step m tbl ctx)"
proof -
  from ctx obtain step where step: "step_of config (current_step ctx) = Inr step"
    using step_of_in_range [OF ok] by (auto simp add: stepping_def)
  from ctx have st: "current_status ctx = status"
    and act: "pattern_state ctx = LED_PATTERN_STATE_ACTIVE"
    by (simp_all add: stepping_def)
  show ?thesis
  proof (cases "flash_count step \<le> current_flash ctx \<and> 0 < flash_count step")
    case True
    from fuel obtain n where m: "m = Suc n" and n: "3 \<le> n"
      by (cases m) simp_all
    have eq: "led_process_current_step m tbl ctx
        = led_start_next_step n tbl (ctx\<lparr> current_step := current_step ctx + 1 \<rparr>)"
      using True by (simp add: m st tbl step)
    have "keeps_stepping config status
        (led_start_next_step n tbl (ctx\<lparr> current_step := current_step ctx + 1 \<rparr>))"
      by (rule start_led_off [OF tbl ok rep _ _ _ n]) (simp_all add: st act off)
    with eq show ?thesis
      by simp
  next
    case False
    from fuel have "2 \<le> m"
      by simp
    with tbl ctx step False off show ?thesis
      by (rule process_unfinished_led_off)
  qed
qed

lemma process_unfinished_led_on:
  assumes tbl: "pattern_of tbl status = Inr config"
    and ok: "pattern_ok config"
    and rep: "repeats_forever config"
    and ctx: "stepping config status ctx"
    and step: "step_of config (current_step ctx) = Inr step"
    and unfinished: "\<not> (flash_count step \<le> current_flash ctx \<and> 0 < flash_count step)"
    and on: "led_state ctx"
    and fuel: "5 \<le> m"
  shows "keeps_stepping config status (led_process_current_step m tbl ctx)"
proof -
  from fuel obtain n where m: "m = Suc n" and n: "4 \<le> n"
    by (cases m) simp_all
  from ctx have st: "current_status ctx = status"
    by (simp add: stepping_def)
  from unfinished
  have uf: "(flash_count step \<le> current_flash ctx \<and> 0 < flash_count step) = False"
    by simp
  show ?thesis
  proof (cases "on_time_ms step \<noteq> 0 \<and> off_time_ms step = 0")
    case True
    define ctx1 where "ctx1 = led_set_physical_state False
        (ctx\<lparr> current_flash := current_flash ctx + 1 \<rparr>)"
    have eq: "led_process_current_step m tbl ctx = led_process_current_step n tbl ctx1"
      using True on by (simp add: m st tbl step uf Let_def ctx1_def)
    have "keeps_stepping config status (led_process_current_step n tbl ctx1)"
    proof (rule process_led_off [OF tbl ok rep _ _ n])
      show "stepping config status ctx1"
        using ctx by (simp add: stepping_def ctx1_def led_set_physical_state_def)
      show "\<not> led_state ctx1"
        by (simp add: ctx1_def led_set_physical_state_def)
    qed
    with eq show ?thesis
      by simp
  next
    case False
    then show ?thesis
      using ctx on unfolding m
      by (auto simp add: st tbl step uf Let_def led_set_physical_state_def ucast_delay_pos
          stepping_def keeps_stepping_def)
  qed
qed


lemma start_next_step_wraps:
  assumes tbl: "pattern_of tbl (current_status ctx) = Inr config"
    and rep: "repeats_forever config"
  shows "led_start_next_step (Suc n) tbl ctx
      = led_process_current_step n tbl
          (ctx\<lparr> current_step := (if step_count config \<le> current_step ctx then 0 else current_step ctx),
                current_flash := 0, step_start_time := kernel_tick ctx \<rparr>)"
proof -
  from rep obtain first_step where first: "step_of config 0 = Inr first_step"
    and zero: "repeat_count first_step = 0"
    by (auto simp add: repeats_forever_def split: sum.splits)
  show ?thesis
    by (simp add: tbl first zero)
qed

lemma start_keeps_stepping:
  assumes tbl: "pattern_of tbl status = Inr config"
    and ok: "pattern_ok config"
    and rep: "repeats_forever config"
    and st: "current_status ctx = status"
    and act: "pattern_state ctx = LED_PATTERN_STATE_ACTIVE"
    and fuel: "6 \<le> m"
  shows "keeps_stepping config status (led_start_next_step m tbl ctx)"
proof (cases "led_state ctx")
  case False
  from fuel have "3 \<le> m"
    by simp
  with tbl ok rep st act False show ?thesis
    by (rule start_led_off)
next
  case True
  from fuel obtain n where m: "m = Suc n" and n: "5 \<le> n"
    by (cases m) simp_all
  from ok have pos: "0 < step_count config"
    by (simp add: pattern_ok_def split: option.splits)
  define ctx1 where "ctx1 = ctx\<lparr> current_step :=
      (if step_count config \<le> current_step ctx then 0 else current_step ctx),
      current_flash := 0, step_start_time := kernel_tick ctx \<rparr>"
  from tbl st have tbl': "pattern_of tbl (current_status ctx) = Inr config"
    by simp
  have eq: "led_start_next_step m tbl ctx = led_process_current_step n tbl ctx1"
    unfolding m ctx1_def by (rule start_next_step_wraps [OF tbl' rep])
  have s1: "stepping config status ctx1"
    using pos by (simp add: stepping_def ctx1_def st act not_le)
  then obtain step where step: "step_of config (current_step ctx1) = Inr step"
    using step_of_in_range [OF ok] by (auto simp add: stepping_def)
  have "keeps_stepping config status (led_process_current_step n tbl ctx1)"
  proof (rule process_unfinished_led_on [OF tbl ok rep s1 step _ _ n])
    show "\<not> (flash_count step \<le> current_flash ctx1 \<and> 0 < flash_count step)"
      by (simp add: ctx1_def fresh_step_not_finished)
    show "led_state ctx1"
      using True by (simp add: ctx1_def)
  qed
  with eq show ?thesis
    by simp
qed

lemma process_keeps_stepping:
  assumes tbl: "pattern_of tbl status = Inr config"
    and ok: "pattern_ok config"
    and rep: "repeats_forever config"
    and ctx: "stepping config status ctx"
    and fuel: "7 \<le> m"
  shows "keeps_stepping config status (led_process_current_step m tbl ctx)"
proof -
  from ctx obtain step where step: "step_of config (current_step ctx) = Inr step"
    using step_of_in_range [OF ok] by (auto simp add: stepping_def)
  from ctx have st: "current_status ctx = status"
    and act: "pattern_state ctx = LED_PATTERN_STATE_ACTIVE"
    by (simp_all add: stepping_def)
  show ?thesis
  proof (cases "flash_count step \<le> current_flash ctx \<and> 0 < flash_count step")
    case True
    from fuel obtain n where m: "m = Suc n" and n: "6 \<le> n"
      by (cases m) simp_all
    have eq: "led_process_current_step m tbl ctx
        = led_start_next_step n tbl (ctx\<lparr> current_step := current_step ctx + 1 \<rparr>)"
      using True by (simp add: m st tbl step)
    have "keeps_stepping config status
        (led_start_next_step n tbl (ctx\<lparr> current_step := current_step ctx + 1 \<rparr>))"
      by (rule start_keeps_stepping [OF tbl ok rep _ _ n]) (simp_all add: st act)
    with eq show ?thesis
      by simp
  next
    case False
    show ?thesis
    proof (cases "led_state ctx")
      case True
      from fuel have "5 \<le> m"
        by simp
      with tbl ok rep ctx step False True show ?thesis
        by (rule process_unfinished_led_on)
    next
      case off: False
      from fuel have "2 \<le> m"
        by simp
      with tbl ctx step False off show ?thesis
        by (rule process_unfinished_led_off)
    qed
  qed
qed

lemma timer_callback_keeps_stepping:
  assumes tbl: "pattern_of tbl status = Inr config"
    and ok: "pattern_ok config"
    and rep: "repeats_forever config"
    and ctx: "stepping config status ctx"
    and fuel: "7 \<le> m"
  shows "keeps_stepping config status (led_timer_callback m tbl ctx)"
proof -
  from ctx have s1: "stepping config status (ctx\<lparr> timer_handle := None \<rparr>)"
    by (simp add: stepping_def)
  from ctx have "led_timer_callback m tbl ctx
      = led_process_current_step m tbl (ctx\<lparr> timer_handle := None \<rparr>)"
    by (simp add: led_timer_callback_def stepping_def Let_def)
  with process_keeps_stepping [OF tbl ok rep s1 fuel] show ?thesis
    by simp
qed

lemma timer_expiries_keep_stepping:
  assumes tbl: "pattern_of tbl status = Inr config"
    and ok: "pattern_ok config"
    and rep: "repeats_forever config"
    and fuel: "7 \<le> m"
  shows "stepping config status ctx \<Longrightarrow>
    \<exists>ctx'. led_timer_expiries k m tbl ctx = Some (Inr ctx') \<and> stepping config status ctx'"
proof (induction k arbitrary: ctx)
  case 0
  then show ?case
    by simp
next
  case (Suc k)
  from timer_callback_keeps_stepping [OF tbl ok rep Suc.prems fuel]
  obtain ctx1 where one: "led_timer_callback m tbl ctx = Some (Inr ctx1)"
    and s1: "stepping config status ctx1"
    by (auto simp add: keeps_stepping_def split: option.splits sum.splits)
  from Suc.IH [OF s1] one show ?case
    by simp
qed

lemma set_keeps_stepping:
  assumes tbl: "pattern_of tbl status = Inr config"
    and ok: "pattern_ok config"
    and rep: "repeats_forever config"
    and valid: "status < LED_STATUS_MAX"
    and special: "status \<noteq> LED_STATUS_OFF" "status \<noteq> LED_STATUS_OTA_SUCCESS"
    and fuel: "6 \<le> m"
  shows "\<exists>ctx'. led_status_set m tbl status ctx = Some (Inr (SL_STATUS_OK, ctx'))
      \<and> stepping config status ctx' \<and> timer_handle ctx' \<noteq> None"
proof -
  define ctx1 where "ctx1 = ctx\<lparr> timer_handle := None, auto_stop_timer := None,
      current_status := status, pattern_state := LED_PATTERN_STATE_ACTIVE,
      current_step := 0, current_flash := 0, repeat_counter := 0,
      pattern_start_time := kernel_tick ctx \<rparr>"
  have "keeps_stepping config status (led_start_next_step m tbl ctx1)"
    by (rule start_keeps_stepping [OF tbl ok rep _ _ fuel]) (simp_all add: ctx1_def)
  then obtain ctx' where "led_start_next_step m tbl ctx1 = Some (Inr ctx')"
    and "stepping config status ctx'" and "timer_handle ctx' \<noteq> None"
    by (auto simp add: keeps_stepping_def split: option.splits sum.splits)
  then show ?thesis
    using valid special
    by (simp add: led_status_set_def Let_def ctx1_def not_le [symmetric])
qed

text \<open>
  Claim C4. For a usable pattern whose first step has \<open>repeat_count = 0\<close>, and a call depth
  bound of at least 7: when \<^verbatim>\<open>led_start_next_step\<close> finds \<open>current_step\<close> past the last
  step, it sets \<open>current_step\<close> to 0 and goes on with \<^verbatim>\<open>led_process_current_step\<close>; from
  an ACTIVE context it returns ACTIVE, with a valid \<open>current_step\<close> and the step timer
  running; and so do \<^verbatim>\<open>led_process_current_step\<close> and \<^verbatim>\<open>led_timer_callback\<close> from a
  stepping context. After any number \<open>k\<close> of expiries of the step timer the phase is still
  ACTIVE: only the other operations, \<^verbatim>\<open>led_status_set\<close> and \<^verbatim>\<open>led_status_stop\<close>, lead out
  of it.
\<close>

theorem infinite_pattern_never_completes:
  assumes tbl: "pattern_of tbl status = Inr config"
    and ok: "pattern_ok config"
    and rep: "repeats_forever config"
    and fuel: "7 \<le> m"
  shows "(current_status ctx = status \<and> step_count config \<le> current_step ctx \<longrightarrow>
            led_start_next_step m tbl ctx
              = led_process_current_step (m - 1) tbl
                  (ctx\<lparr> current_step := 0, current_flash := 0,
                        step_start_time := kernel_tick ctx \<rparr>))
       \<and> (current_status ctx = status \<and> pattern_state ctx = LED_PATTERN_STATE_ACTIVE \<longrightarrow>
            keeps_stepping config status (led_start_next_step m tbl ctx))
       \<and> (stepping config status ctx \<longrightarrow>
            keeps_stepping config status (led_process_current_step m tbl ctx)
            \<and> keeps_stepping config status (led_timer_callback m tbl ctx)
            \<and> (\<exists>ctx'. led_timer_expiries k m tbl ctx = Some (Inr ctx')
                  \<and> pattern_state ctx' = LED_PATTERN_STATE_ACTIVE
                  \<and> current_status ctx' = status
                  \<and> current_step ctx' < step_count config))"
proof (intro conjI impI)
  assume a: "current_status ctx = status \<and> step_count config \<le> current_step ctx"
  from fuel obtain n where m: "m = Suc n"
    by (cases m) simp_all
  from a tbl have "pattern_of tbl (current_status ctx) = Inr config"
    by simp
  from start_next_step_wraps [OF this rep, of n] a
  show "led_start_next_step m tbl ctx
      = led_process_current_step (m - 1) tbl
          (ctx\<lparr> current_step := 0, current_flash := 0, step_start_time := kernel_tick ctx \<rparr>)"
    by (simp add: m)
next
  assume a: "current_status ctx = status \<and> pattern_state ctx = LED_PATTERN_STATE_ACTIVE"
  from fuel have "6 \<le> m"
    by simp
  with tbl ok rep a show "keeps_stepping config status (led_start_next_step m tbl ctx)"
    by (blast intro: start_keeps_stepping)
next
  assume a: "stepping config status ctx"
  from tbl ok rep a fuel
  show "keeps_stepping config status (led_process_current_step m tbl ctx)"
    by (rule process_keeps_stepping)
  from tbl ok rep a fuel
  show "keeps_stepping config status (led_timer_callback m tbl ctx)"
    by (rule timer_callback_keeps_stepping)
  from timer_expiries_keep_stepping [OF tbl ok rep fuel a, of k]
  show "\<exists>ctx'. led_timer_expiries k m tbl ctx = Some (Inr ctx')
      \<and> pattern_state ctx' = LED_PATTERN_STATE_ACTIVE
      \<and> current_status ctx' = status
      \<and> current_step ctx' < step_count config"
    by (auto simp add: stepping_def)
qed

theorem infinite_pattern_never_completes_witness:
  "pattern_of led_patterns LED_STATUS_BLE_PAIRING = Inr (led_patterns ! 1)
   \<and> pattern_ok (led_patterns ! 1)
   \<and> repeats_forever (led_patterns ! 1)
   \<and> stepping (led_patterns ! 1) LED_STATUS_BLE_PAIRING led_context_pairing
   \<and> keeps_stepping (led_patterns ! 1) LED_STATUS_BLE_PAIRING
        (led_timer_callback 7 led_patterns led_context_pairing)
   \<and> (\<exists>ctx'. led_timer_expiries 5 7 led_patterns led_context_pairing = Some (Inr ctx')
         \<and> pattern_state ctx' = LED_PATTERN_STATE_ACTIVE)
   \<and> current_status (led_context_pairing\<lparr> current_step := 1 \<rparr>) = LED_STATUS_BLE_PAIRING
   \<and> step_count (led_patterns ! 1) \<le> current_step (led_context_pairing\<lparr> current_step := 1 \<rparr>)
   \<and> led_start_next_step 7 led_patterns (led_context_pairing\<lparr> current_step := 1 \<rparr>)
       = led_process_current_step 6 led_patterns
           (led_context_pairing\<lparr> current_step := 0, current_flash := 0,
              step_start_time := kernel_tick led_context_pairing \<rparr>)"
proof -
  have tbl: "pattern_of led_patterns LED_STATUS_BLE_PAIRING = Inr (led_patterns ! 1)"
    by (simp add: led_table_defs)
  have ok: "pattern_ok (led_patterns ! 1)"
    by (simp add: pattern_ok_def led_table_defs)
  have rep: "repeats_forever (led_patterns ! 1)"
    by (simp add: repeats_forever_def led_table_defs)
  have ctx: "stepping (led_patterns ! 1) LED_STATUS_BLE_PAIRING led_context_pairing"
    by (simp add: stepping_def led_context_pairing_def led_context_zero_def led_table_defs)
  have past: "current_status (led_context_pairing\<lparr> current_step := 1 \<rparr>) = LED_STATUS_BLE_PAIRING
      \<and> step_count (led_patterns ! 1) \<le> current_step (led_context_pairing\<lparr> current_step := 1 \<rparr>)"
    by (simp add: led_context_pairing_def led_context_zero_def led_table_defs)
  from infinite_pattern_never_completes [OF tbl ok rep order_refl, of led_context_pairing 5]
    infinite_pattern_never_completes [OF tbl ok rep order_refl,
      of "led_context_pairing\<lparr> current_step := 1 \<rparr>" 0]
    tbl ok rep ctx past
  show ?thesis
    by auto
qed

end
